theory Spec2Isabelle
  imports Main
begin

section \<open>JavaScript primitives used by OrderForm.tsx\<close>

text \<open>
  Strings are byte strings (the UTF-8 encoding of the JavaScript string). The order-number
  generator computes on the result of \<^verbatim>\<open>parseInt\<close>, the type \<open>number\<close> below: an
  integer, or \<open>NaN\<close>; JavaScript computes the same for magnitudes below \<open>2 ^ 53\<close>.
  The quantities, prices and totals of the form are IEEE 754 doubles, the type
  \<open>double\<close> further down, with the rounding of every operation.
\<close>

datatype number = Num int | NaN

text \<open>\<^verbatim>\<open>a + b\<close> on numbers: \<open>NaN\<close> is absorbing.\<close>

fun plus_number :: "number \<Rightarrow> number \<Rightarrow> number" where
  "plus_number (Num a) (Num b) = Num (a + b)"
| "plus_number _ _ = NaN"

definition digit_char :: "nat \<Rightarrow> char" where
  "digit_char d = char_of (48 + d)"

fun showNat :: "nat \<Rightarrow> string" where
  "showNat n = (if n < 10 then [digit_char n] else showNat (n div 10) @ [digit_char (n mod 10)])"

declare showNat.simps [simp del]

text \<open>\<^verbatim>\<open>String(n)\<close>: decimal digits, a leading minus sign, or the text NaN.\<close>

fun numberToString :: "number \<Rightarrow> string" where
  "numberToString NaN = ''NaN''"
| "numberToString (Num i) = (if i < 0 then CHR ''-'' # showNat (nat (- i)) else showNat (nat i))"

text \<open>\<^verbatim>\<open>s.padStart(n, c)\<close> with a one-character filler.\<close>

definition padStart :: "string \<Rightarrow> nat \<Rightarrow> char \<Rightarrow> string" where
  "padStart s n c = replicate (n - length s) c @ s"

text \<open>\<^verbatim>\<open>s.split(c)\<close> with a one-character separator: never the empty array.\<close>

fun split_str :: "char \<Rightarrow> string \<Rightarrow> string list" where
  "split_str c [] = [[]]"
| "split_str c (x # xs) =
     (if x = c then [] # split_str c xs
      else (case split_str c xs of
              [] \<Rightarrow> [[x]]
            | y # ys \<Rightarrow> (x # y) # ys))"

text \<open>\<^verbatim>\<open>xs[i]\<close> for an index that is a number: \<open>None\<close> is \<^verbatim>\<open>undefined\<close>.\<close>

definition index :: "'a list \<Rightarrow> int \<Rightarrow> 'a option" where
  "index xs i = (if 0 \<le> i \<and> i < int (length xs) then Some (xs ! nat i) else None)"

text \<open>\<^verbatim>\<open>ToString\<close> of a value that is a string or \<^verbatim>\<open>undefined\<close>.\<close>

fun toString :: "string option \<Rightarrow> string" where
  "toString None = ''undefined''"
| "toString (Some s) = s"

text \<open>
  The white space that \<^verbatim>\<open>parseInt\<close> skips: the ASCII characters tab, line feed, vertical
  tab, form feed, carriage return and space, and the UTF-8 encodings of U+00A0, U+1680,
  U+2000 to U+200A, U+2028, U+2029, U+202F, U+205F, U+3000 and U+FEFF.
  \<open>whiteSpaceLen\<close> is the number of bytes of the white space character at the start
  of a text, 0 when there is none.
\<close>

definition isWhiteSpace :: "char \<Rightarrow> bool" where
  "isWhiteSpace c = (c \<in> set [CHR 0x09, CHR 0x0A, CHR 0x0B, CHR 0x0C, CHR 0x0D, CHR 0x20])"

definition whiteSpaceLen :: "string \<Rightarrow> nat" where
  "whiteSpaceLen s =
     (if s \<noteq> [] \<and> isWhiteSpace (hd s) then 1
      else if take 2 s = [CHR 0xC2, CHR 0xA0] then 2
      else if take 3 s \<in> set ([[CHR 0xE1, CHR 0x9A, CHR 0x80], [CHR 0xE2, CHR 0x80, CHR 0xA8],
                                [CHR 0xE2, CHR 0x80, CHR 0xA9], [CHR 0xE2, CHR 0x80, CHR 0xAF],
                                [CHR 0xE2, CHR 0x81, CHR 0x9F], [CHR 0xE3, CHR 0x80, CHR 0x80],
                                [CHR 0xEF, CHR 0xBB, CHR 0xBF]]
                               @ map (\<lambda>b. [CHR 0xE2, CHR 0x80, char_of b]) [0x80 ..< (0x8B::nat)])
      then 3
      else 0)"

function trimStart :: "string \<Rightarrow> string" where
  "trimStart s = (if whiteSpaceLen s = 0 then s else trimStart (drop (whiteSpaceLen s) s))"
  by pat_completeness auto
termination
proof (relation "measure length")
  show "wf (measure length)" by simp
next
  fix s :: string
  assume "whiteSpaceLen s \<noteq> 0"
  then have "s \<noteq> []" "0 < whiteSpaceLen s"
    by (auto simp: whiteSpaceLen_def)
  then show "(drop (whiteSpaceLen s) s, s) \<in> measure length"
    by simp
qed

declare trimStart.simps [simp del]

text \<open>The value of a character as a digit of the given radix, if it is one.\<close>

definition digitValue :: "nat \<Rightarrow> char \<Rightarrow> nat option" where
  "digitValue r c =
     (let n = (of_char c :: nat);
          v = (if 48 \<le> n \<and> n \<le> 57 then Some (n - 48)
               else if 97 \<le> n \<and> n \<le> 122 then Some (n - 87)
               else if 65 \<le> n \<and> n \<le> 90 then Some (n - 55)
               else None)
      in case v of None \<Rightarrow> None | Some d \<Rightarrow> if d < r then Some d else None)"

definition radixValue :: "nat \<Rightarrow> string \<Rightarrow> nat" where
  "radixValue r z = foldl (\<lambda>a c. a * r + the (digitValue r c)) 0 z"

text \<open>
  \<^verbatim>\<open>parseInt(s)\<close> with no radix: leading white space is skipped, one sign is read, a
  prefix 0x or 0X selects radix 16 (radix 10 otherwise), and the longest run of digits
  of that radix is the value. No digit at all gives \<open>NaN\<close>.
\<close>

definition parseInt :: "string \<Rightarrow> number" where
  "parseInt inputString =
     (let S = trimStart inputString;
          sign = (if S \<noteq> [] \<and> hd S = CHR ''-'' then - 1 else (1::int));
          S1 = (if S \<noteq> [] \<and> (hd S = CHR ''+'' \<or> hd S = CHR ''-'') then tl S else S);
          hex = (take 2 S1 = ''0x'' \<or> take 2 S1 = ''0X'');
          R = (if hex then 16 else 10);
          S2 = (if hex then drop 2 S1 else S1);
          Z = takeWhile (\<lambda>c. digitValue R c \<noteq> None) S2
      in if Z = [] then NaN else Num (sign * int (radixValue R Z)))"

section \<open>The order-number generator\<close>

text \<open>
  \<^verbatim>\<open>generateOrderNumber\<close> closes over the optional property \<^verbatim>\<open>lastOrderNumber\<close>, here
  its argument. \<^verbatim>\<open>!lastOrderNumber\<close> holds for \<^verbatim>\<open>undefined\<close> and for the empty string.
\<close>

definition generateOrderNumber :: "string option \<Rightarrow> string" where
  "generateOrderNumber lastOrderNumber =
     (case lastOrderNumber of
        None \<Rightarrow> ''ORD-001''
      | Some l \<Rightarrow>
          if l = [] then ''ORD-001''
          else (let currentNumber = parseInt (toString (index (split_str CHR ''-'' l) 1))
                in ''ORD-'' @ padStart (numberToString (plus_number currentNumber (Num 1))) 3 CHR ''0''))"

text \<open>
  \<^verbatim>\<open>String.prototype.toLowerCase\<close> belongs to the JavaScript runtime and maps every cased
  letter of Unicode. The functions of the component below take it as their first
  argument \<open>toLowerCase\<close>. What is known of it here is its value on ASCII text, where it
  maps the letters A to Z to a to z and keeps every other character: \<open>asciiLowerCase\<close>.
  \<open>folds_ascii f\<close> says that \<open>f\<close> is such a case mapping.
\<close>

definition toLowerChar :: "char \<Rightarrow> char" where
  "toLowerChar c =
     (let n = (of_char c :: nat) in if 65 \<le> n \<and> n \<le> 90 then char_of (n + 32) else c)"

definition asciiLowerCase :: "string \<Rightarrow> string" where
  "asciiLowerCase s = map toLowerChar s"

definition isAscii :: "char \<Rightarrow> bool" where
  "isAscii c = ((of_char c :: nat) < 128)"

definition folds_ascii :: "(string \<Rightarrow> string) \<Rightarrow> bool" where
  "folds_ascii f = (\<forall>s. list_all isAscii s \<longrightarrow> f s = asciiLowerCase s)"

text \<open>\<^verbatim>\<open>s.includes(t)\<close>: \<open>t\<close> occurs in \<open>s\<close> at some position.\<close>

fun includes_str :: "string \<Rightarrow> string \<Rightarrow> bool" where
  "includes_str [] t = (t = [])"
| "includes_str (x # xs) t = (take (length t) (x # xs) = t \<or> includes_str xs t)"

section \<open>Doubles\<close>

text \<open>
  A JavaScript number in the form is an IEEE 754 double: \<open>Fin m e\<close> is the finite value
  \<open>m * 2 ^ e\<close>, beside the two infinities and NaN. The sign of a zero is not modelled:
  the component adds, subtracts, multiplies and tests for truthiness, and none of these
  gives a different value for -0 and +0. Every operation computes the exact result and
  rounds it with \<open>round_double\<close>: to 53 significant bits, least exponent -1074, ties to
  the even significand, and to an infinity from \<open>2 ^ 1024\<close> on.
\<close>

datatype double = Fin int int | PosInf | NegInf | NotANumber

text \<open>The number of binary digits of a positive integer.\<close>

function bits :: "int \<Rightarrow> nat" where
  "bits a = (if a \<le> 0 then 0 else Suc (bits (a div 2)))"
  by pat_completeness auto
termination
  by (relation "measure nat") auto

declare bits.simps [simp del]

text \<open>\<open>a / 2 ^ k\<close> rounded to the nearest integer, a tie to the even one.\<close>

definition rne :: "int \<Rightarrow> nat \<Rightarrow> int" where
  "rne a k =
     (let q = a div 2 ^ k; r = a mod 2 ^ k
      in if 2 ^ k < 2 * r \<or> (2 * r = 2 ^ k \<and> odd q) then q + 1 else q)"

definition round_double :: "int \<Rightarrow> int \<Rightarrow> double" where
  "round_double m e =
     (let a = \<bar>m\<bar>;
          k = max (int (bits a) - 53) (- 1074 - e);
          a' = (if 0 < k then rne a (nat k) else a);
          e' = (if 0 < k then e + k else e)
      in if a' = 0 then Fin 0 0
         else if 1024 < int (bits a') + e' then (if m < 0 then NegInf else PosInf)
         else Fin (if m < 0 then - a' else a') e')"

text \<open>The double of an integer literal such as \<^verbatim>\<open>0\<close> or \<^verbatim>\<open>1\<close>.\<close>

definition int_double :: "int \<Rightarrow> double" where
  "int_double n = Fin n 0"

fun dneg :: "double \<Rightarrow> double" where
  "dneg (Fin a e) = Fin (- a) e"
| "dneg PosInf = NegInf"
| "dneg NegInf = PosInf"
| "dneg NotANumber = NotANumber"

text \<open>\<^verbatim>\<open>x + y\<close>.\<close>

fun dadd :: "double \<Rightarrow> double \<Rightarrow> double" where
  "dadd (Fin a e) (Fin b f) =
     (let g = min e f in round_double (a * 2 ^ nat (e - g) + b * 2 ^ nat (f - g)) g)"
| "dadd NotANumber y = NotANumber"
| "dadd x NotANumber = NotANumber"
| "dadd PosInf NegInf = NotANumber"
| "dadd NegInf PosInf = NotANumber"
| "dadd PosInf y = PosInf"
| "dadd x PosInf = PosInf"
| "dadd NegInf y = NegInf"
| "dadd x NegInf = NegInf"

text \<open>\<^verbatim>\<open>x - y\<close>, which is \<^verbatim>\<open>x + (-y)\<close>.\<close>

definition dsub :: "double \<Rightarrow> double \<Rightarrow> double" where
  "dsub x y = dadd x (dneg y)"

text \<open>\<^verbatim>\<open>x * y\<close>: an infinity times zero is NaN.\<close>

fun dmul :: "double \<Rightarrow> double \<Rightarrow> double" where
  "dmul (Fin a e) (Fin b f) = round_double (a * b) (e + f)"
| "dmul NotANumber y = NotANumber"
| "dmul x NotANumber = NotANumber"
| "dmul (Fin a e) y =
     (if a = 0 then NotANumber else if (0 < a) = (y = PosInf) then PosInf else NegInf)"
| "dmul x (Fin b f) =
     (if b = 0 then NotANumber else if (0 < b) = (x = PosInf) then PosInf else NegInf)"
| "dmul x y = (if x = y then PosInf else NegInf)"

text \<open>\<^verbatim>\<open>!x\<close> on a number: zero and NaN are falsy.\<close>

fun falsy :: "double \<Rightarrow> bool" where
  "falsy (Fin a e) = (a = 0)"
| "falsy NotANumber = True"
| "falsy x = False"

text \<open>\<^verbatim>\<open>t || 0\<close> on a number that is never \<^verbatim>\<open>undefined\<close>.\<close>

definition or_zero :: "double \<Rightarrow> double" where
  "or_zero t = (if falsy t then int_double 0 else t)"

text \<open>
  The sum of a list of doubles as JavaScript computes it, adding from the left and
  starting at 0: the reading in doubles of the specification's sum of the subtotals.
\<close>

definition dsum :: "double list \<Rightarrow> double" where
  "dsum xs = foldl dadd (int_double 0) xs"

section \<open>Data model\<close>

text \<open>
  Modelled from the spec: the declarations of \<^verbatim>\<open>Supplier\<close>, \<^verbatim>\<open>Product\<close>, \<^verbatim>\<open>OrderItem\<close> and
  \<^verbatim>\<open>Order\<close> live in \<^verbatim>\<open>../types\<close>, which is not among the sources; the fields are those the
  component reads and writes and those the specification lists.
\<close>

record Supplier =
  supplier_id :: string
  supplier_name :: string
  insumo :: string
  rut :: "string option"
  email :: "string option"
  additionalInfo :: "string option"

record Product =
  product_id :: string
  product_name :: string
  product_price :: double
  product_supplier :: string
  product_quantity :: double
  product_unit :: string
  sku :: string
  category :: string

record OrderItem =
  productId :: string
  name :: string
  quantity :: double
  price :: double
  subtotal :: double

record StatusEntry =
  entry_status :: string
  timestamp :: string

record Order =
  orderNumber :: string
  supplier :: string
  status :: string
  items :: "OrderItem list"
  total :: double
  createdAt :: string
  estimatedDelivery :: string
  deliveryAddress :: string
  paymentMethod :: string
  order_notes :: string
  statusHistory :: "StatusEntry list"

text \<open>The composer \<^verbatim>\<open>newItem\<close>: the three fields of \<^verbatim>\<open>Partial<OrderItem>\<close> it ever holds.\<close>

record NewItem =
  new_name :: string
  new_quantity :: double
  new_price :: double

record State =
  suppliers :: "Supplier list"
  products :: "Product list"
  filteredProducts :: "Product list"
  showSupplierDropdown :: bool
  showProductDropdown :: bool
  supplierSearch :: string
  productSearch :: string
  formData :: Order
  newItem :: NewItem

datatype Error = TypeError

datatype Effect = PreventDefault | Alert string | OnSave Order | OnClose

section \<open>The component\<close>

text \<open>
  The initial values of the \<^verbatim>\<open>useState\<close> hooks. The two readings of the clock are
  parameters.
\<close>

definition initialFormData :: "string option \<Rightarrow> string \<Rightarrow> string \<Rightarrow> Order" where
  "initialFormData lastOrderNumber now1 now2 =
     \<lparr> orderNumber = generateOrderNumber lastOrderNumber,
       supplier = [],
       status = ''pending'',
       items = [],
       total = int_double 0,
       createdAt = now1,
       estimatedDelivery = [],
       deliveryAddress = ''Av. Camilo Henr'' @ [CHR 0xC3, CHR 0xAD] @ ''quez 3692'',
       paymentMethod = [],
       order_notes = [],
       statusHistory = [\<lparr> entry_status = ''pending'', timestamp = now2 \<rparr>] \<rparr>"

definition initialState :: "string option \<Rightarrow> string \<Rightarrow> string \<Rightarrow> State" where
  "initialState lastOrderNumber now1 now2 =
     \<lparr> suppliers = [],
       products = [],
       filteredProducts = [],
       showSupplierDropdown = False,
       showProductDropdown = False,
       supplierSearch = [],
       productSearch = [],
       formData = initialFormData lastOrderNumber now1 now2,
       newItem = \<lparr> new_name = [], new_quantity = int_double 1, new_price = int_double 0 \<rparr> \<rparr>"

text \<open>
  The effect with dependencies \<^verbatim>\<open>[formData.supplier, products]\<close>: it filters the products
  of the selected supplier and clears the staged product.
\<close>

definition supplierEffect :: "(string \<Rightarrow> string) \<Rightarrow> State \<Rightarrow> State" where
  "supplierEffect toLowerCase s =
     s \<lparr> filteredProducts :=
           (if supplier (formData s) \<noteq> []
            then filter (\<lambda>product. toLowerCase (product_supplier product)
                                   = toLowerCase (supplier (formData s))) (products s)
            else []),
         newItem := (newItem s) \<lparr> new_name := [], new_price := int_double 0 \<rparr>,
         productSearch := [] \<rparr>"

text \<open>
  After a handler has run, the component renders again and the effect runs when one of
  its dependencies differs from the previous render. \<^verbatim>\<open>setProducts\<close> stores the array of
  a new response, which is a new object: the flag \<open>loaded\<close> says that it was called.
\<close>

definition rerender :: "(string \<Rightarrow> string) \<Rightarrow> State \<Rightarrow> bool \<Rightarrow> State \<Rightarrow> State" where
  "rerender toLowerCase old loaded new =
     (if supplier (formData new) \<noteq> supplier (formData old) \<or> loaded
      then supplierEffect toLowerCase new else new)"

definition filteredSuppliers :: "(string \<Rightarrow> string) \<Rightarrow> State \<Rightarrow> Supplier list" where
  "filteredSuppliers toLowerCase s =
     filter (\<lambda>sup. includes_str (toLowerCase (supplier_name sup)) (toLowerCase (supplierSearch s)))
       (suppliers s)"

definition searchFilteredProducts :: "(string \<Rightarrow> string) \<Rightarrow> State \<Rightarrow> Product list" where
  "searchFilteredProducts toLowerCase s =
     filter (\<lambda>product. includes_str (toLowerCase (product_name product)) (toLowerCase (productSearch s)))
       (filteredProducts s)"

text \<open>The \<^verbatim>\<open>onChange\<close> handler of the supplier input.\<close>

definition supplierChange :: "string \<Rightarrow> State \<Rightarrow> State" where
  "supplierChange v s =
     s \<lparr> supplierSearch := v,
         formData := (formData s) \<lparr> supplier := v \<rparr>,
         showSupplierDropdown := True \<rparr>"

definition handleSupplierSelect :: "string \<Rightarrow> State \<Rightarrow> State" where
  "handleSupplierSelect supplierName s =
     s \<lparr> formData := (formData s) \<lparr> supplier := supplierName \<rparr>,
         supplierSearch := supplierName,
         showSupplierDropdown := False \<rparr>"

text \<open>The \<^verbatim>\<open>onChange\<close> handler of the product input.\<close>

definition productChange :: "string \<Rightarrow> State \<Rightarrow> State" where
  "productChange v s =
     s \<lparr> productSearch := v,
         newItem := (newItem s) \<lparr> new_name := v \<rparr>,
         showProductDropdown := True \<rparr>"

definition handleProductSelect :: "Product \<Rightarrow> State \<Rightarrow> State" where
  "handleProductSelect product s =
     s \<lparr> newItem := (newItem s) \<lparr> new_name := product_name product, new_price := product_price product \<rparr>,
         productSearch := product_name product,
         showProductDropdown := False \<rparr>"

text \<open>The \<^verbatim>\<open>disabled\<close> attribute of the button that calls \<^verbatim>\<open>addItem\<close>.\<close>

definition addItemDisabled :: "State \<Rightarrow> bool" where
  "addItemDisabled s =
     (new_name (newItem s) = [] \<or> falsy (new_quantity (newItem s)) \<or> falsy (new_price (newItem s)))"

text \<open>\<^verbatim>\<open>addItem\<close>; \<open>now\<close> is the text of \<^verbatim>\<open>Date.now().toString()\<close>.\<close>

definition addItem :: "string \<Rightarrow> State \<Rightarrow> State" where
  "addItem now s =
     (if new_name (newItem s) = [] \<or> falsy (new_quantity (newItem s)) \<or> falsy (new_price (newItem s))
      then s
      else (let item = \<lparr> productId = now,
                         name = new_name (newItem s),
                         quantity = new_quantity (newItem s),
                         price = new_price (newItem s),
                         subtotal = dmul (new_quantity (newItem s)) (new_price (newItem s)) \<rparr>
            in s \<lparr> formData := (formData s)
                       \<lparr> items := items (formData s) @ [item],
                         total := dadd (or_zero (total (formData s))) (subtotal item) \<rparr>,
                   newItem := \<lparr> new_name = [], new_quantity = int_double 1,
                                new_price = int_double 0 \<rparr>,
                   productSearch := [] \<rparr>))"

text \<open>\<^verbatim>\<open>xs.filter((_, i) => i !== index)\<close>.\<close>

definition filter_index :: "int \<Rightarrow> 'a list \<Rightarrow> 'a list" where
  "filter_index idx xs = map snd (filter (\<lambda>(i, _). int i \<noteq> idx) (enumerate 0 xs))"

text \<open>
  \<^verbatim>\<open>removeItem\<close>: reading \<^verbatim>\<open>subtotal\<close> of \<^verbatim>\<open>undefined\<close> throws a \<^verbatim>\<open>TypeError\<close>.
\<close>

definition removeItem :: "int \<Rightarrow> State \<Rightarrow> Error + State" where
  "removeItem idx s =
     (let its = items (formData s);
          removedItem = index its idx
      in case removedItem of
           None \<Rightarrow> Inl TypeError
         | Some r \<Rightarrow>
             Inr (s \<lparr> formData := (formData s)
                         \<lparr> items := filter_index idx its,
                           total := dsub (or_zero (total (formData s))) (subtotal r) \<rparr> \<rparr>))"

text \<open>
  \<^verbatim>\<open>handleSubmit\<close> changes no state of the component: its result is the sequence of
  calls it makes.
\<close>

definition handleSubmit :: "State \<Rightarrow> Effect list" where
  "handleSubmit s =
     PreventDefault #
     (if supplier (formData s) = [] \<or> deliveryAddress (formData s) = []
         \<or> paymentMethod (formData s) = [] \<or> length (items (formData s)) = 0
      then [Alert ''Por favor complete todos los campos requeridos'']
      else [OnSave (formData s), OnClose])"

text \<open>
  One event is one call of a handler of the component. \<open>EstimatedDeliveryChange\<close>
  carries the text of \<^verbatim>\<open>new Date(v).toISOString()\<close>. On an invalid date (\<open>None\<close>) that
  call throws a \<^verbatim>\<open>RangeError\<close> inside the handler, before \<^verbatim>\<open>setFormData\<close> is reached: the
  state stays as it is and the component goes on. The \<^verbatim>\<open>TypeError\<close> of \<^verbatim>\<open>removeItem\<close> is
  thrown by the state updater while the component renders, which ends the run.
\<close>

datatype Event =
    SuppliersLoaded "Supplier list"
  | ProductsLoaded "Product list"
  | SupplierChange string
  | SupplierSelect string
  | SupplierFocus
  | SupplierToggle
  | EstimatedDeliveryChange "string option"
  | DeliveryAddressChange string
  | PaymentMethodChange string
  | NotesChange string
  | ProductChange string
  | ProductFocus
  | ProductToggle
  | ProductSelect Product
  | QuantityChange double
  | PriceChange double
  | AddItem string
  | RemoveItem int
  | Submit

fun handle :: "Event \<Rightarrow> State \<Rightarrow> Error + State" where
  "handle (SuppliersLoaded d) s = Inr (s \<lparr> suppliers := d \<rparr>)"
| "handle (ProductsLoaded d) s = Inr (s \<lparr> products := d \<rparr>)"
| "handle (SupplierChange v) s = Inr (supplierChange v s)"
| "handle (SupplierSelect n) s = Inr (handleSupplierSelect n s)"
| "handle SupplierFocus s = Inr (s \<lparr> showSupplierDropdown := True \<rparr>)"
| "handle SupplierToggle s = Inr (s \<lparr> showSupplierDropdown := \<not> showSupplierDropdown s \<rparr>)"
| "handle (EstimatedDeliveryChange None) s = Inr s"
| "handle (EstimatedDeliveryChange (Some v)) s =
     Inr (s \<lparr> formData := (formData s) \<lparr> estimatedDelivery := v \<rparr> \<rparr>)"
| "handle (DeliveryAddressChange v) s = Inr (s \<lparr> formData := (formData s) \<lparr> deliveryAddress := v \<rparr> \<rparr>)"
| "handle (PaymentMethodChange v) s = Inr (s \<lparr> formData := (formData s) \<lparr> paymentMethod := v \<rparr> \<rparr>)"
| "handle (NotesChange v) s = Inr (s \<lparr> formData := (formData s) \<lparr> order_notes := v \<rparr> \<rparr>)"
| "handle (ProductChange v) s = Inr (productChange v s)"
| "handle ProductFocus s =
     Inr (if supplier (formData s) \<noteq> [] then s \<lparr> showProductDropdown := True \<rparr> else s)"
| "handle ProductToggle s = Inr (s \<lparr> showProductDropdown := \<not> showProductDropdown s \<rparr>)"
| "handle (ProductSelect p) s = Inr (handleProductSelect p s)"
| "handle (QuantityChange n) s = Inr (s \<lparr> newItem := (newItem s) \<lparr> new_quantity := n \<rparr> \<rparr>)"
| "handle (PriceChange n) s = Inr (s \<lparr> newItem := (newItem s) \<lparr> new_price := n \<rparr> \<rparr>)"
| "handle (AddItem now) s = Inr (addItem now s)"
| "handle (RemoveItem idx) s = removeItem idx s"
| "handle Submit s = Inr s"

fun isProductsLoaded :: "Event \<Rightarrow> bool" where
  "isProductsLoaded (ProductsLoaded d) = True"
| "isProductsLoaded _ = False"

text \<open>One step: the handler, then the render that follows it.\<close>

definition step :: "(string \<Rightarrow> string) \<Rightarrow> State \<Rightarrow> Event \<Rightarrow> Error + State" where
  "step toLowerCase s e =
     (case handle e s of
        Inl err \<Rightarrow> Inl err
      | Inr s' \<Rightarrow> Inr (rerender toLowerCase s (isProductsLoaded e) s'))"

fun run :: "(string \<Rightarrow> string) \<Rightarrow> State \<Rightarrow> Event list \<Rightarrow> Error + State" where
  "run toLowerCase s [] = Inr s"
| "run toLowerCase s (e # es) =
     (case step toLowerCase s e of Inl err \<Rightarrow> Inl err | Inr s' \<Rightarrow> run toLowerCase s' es)"

section \<open>Exact totals and example inputs\<close>

text \<open>
  A double is a safe integer when it is \<open>int_double n\<close> for an integer \<open>n\<close> of magnitude
  below \<open>2 ^ 53\<close>; \<open>ival\<close> is that integer. The items of a draft are exact when their
  subtotals are safe integers whose absolute values sum to less than \<open>2 ^ 53\<close>: then no
  sum of some of them is rounded.
\<close>

fun safe_int :: "double \<Rightarrow> bool" where
  "safe_int (Fin n e) = (e = 0 \<and> \<bar>n\<bar> < 2 ^ 53)"
| "safe_int x = False"

fun ival :: "double \<Rightarrow> int" where
  "ival (Fin n e) = n"
| "ival x = 0"

definition abs_sum :: "OrderItem list \<Rightarrow> int" where
  "abs_sum its = sum_list (map (\<lambda>i. \<bar>ival (subtotal i)\<bar>) its)"

definition exact_items :: "OrderItem list \<Rightarrow> bool" where
  "exact_items its = (list_all (\<lambda>i. safe_int (subtotal i)) its \<and> abs_sum its < 2 ^ 53)"

text \<open>
  An event keeps the draft exact when it is not a call of \<open>addItem\<close> that fires, or
  fires with a safe integer quantity and price whose product, added to the absolute
  subtotals already in the draft, stays below \<open>2 ^ 53\<close>. \<open>exact_run\<close> asks this of every
  event of a run, in the state in which the event happens.
\<close>

fun exact_event :: "State \<Rightarrow> Event \<Rightarrow> bool" where
  "exact_event s (AddItem now) =
     (addItemDisabled s
      \<or> (safe_int (new_quantity (newItem s)) \<and> safe_int (new_price (newItem s))
          \<and> abs_sum (items (formData s))
               + \<bar>ival (new_quantity (newItem s)) * ival (new_price (newItem s))\<bar> < 2 ^ 53))"
| "exact_event s e = True"

fun exact_run :: "(string \<Rightarrow> string) \<Rightarrow> State \<Rightarrow> Event list \<Rightarrow> bool" where
  "exact_run toLowerCase s [] = True"
| "exact_run toLowerCase s (e # es) =
     (exact_event s e
      \<and> (case step toLowerCase s e of Inl err \<Rightarrow> True | Inr s' \<Rightarrow> exact_run toLowerCase s' es))"

definition total_ok :: "State \<Rightarrow> bool" where
  "total_ok s =
     (exact_items (items (formData s))
      \<and> total (formData s) = int_double (sum_list (map (\<lambda>i. ival (subtotal i)) (items (formData s)))))"

definition example_product :: Product where
  "example_product =
     \<lparr> product_id = ''p1'', product_name = ''Harina'', product_price = int_double 1500,
       product_supplier = ''ACME'', product_quantity = int_double 10, product_unit = ''kg'',
       sku = ''H-1'', category = ''secos'' \<rparr>"

definition example_events :: "Event list" where
  "example_events =
     [ProductsLoaded [example_product], SupplierSelect ''Acme'', ProductSelect example_product,
      QuantityChange (int_double 3), AddItem ''1700000000000'', PaymentMethodChange ''Efectivo'',
      ProductSelect example_product, QuantityChange (int_double 2), AddItem ''1700000000001'',
      RemoveItem 0]"

text \<open>
  A run that adds an item of quantity \<open>2 ^ 53\<close> at price 1, then an item of quantity 1
  at price 1, and removes the first.
\<close>

definition unit_product :: Product where
  "unit_product =
     \<lparr> product_id = ''p3'', product_name = ''Clavo'', product_price = int_double 1,
       product_supplier = ''ACME'', product_quantity = int_double 10, product_unit = ''un'',
       sku = ''C-1'', category = ''ferreteria'' \<rparr>"

definition drift_events :: "Event list" where
  "drift_events =
     [ProductsLoaded [unit_product], SupplierSelect ''Acme'', ProductSelect unit_product,
      QuantityChange (int_double 9007199254740992), AddItem ''1700000000000'',
      ProductSelect unit_product, AddItem ''1700000000001'', RemoveItem 0]"

text \<open>
  A run with fractional quantities at price 1: 0.1, 0.2 and 0.3 are added (the doubles
  nearest to them), then the first item is removed.
\<close>

definition fraction_events :: "Event list" where
  "fraction_events =
     [ProductsLoaded [unit_product], SupplierSelect ''Acme'', ProductSelect unit_product,
      QuantityChange (Fin 3602879701896397 (- 55)), AddItem ''1700000000000'',
      ProductSelect unit_product,
      QuantityChange (Fin 3602879701896397 (- 54)), AddItem ''1700000000001'',
      ProductSelect unit_product,
      QuantityChange (Fin 5404319552844595 (- 54)), AddItem ''1700000000002'',
      RemoveItem 0]"


definition example_complete :: State where
  "example_complete =
     (initialState None ''t1'' ''t2'')
       \<lparr> formData := (initialFormData None ''t1'' ''t2'')
            \<lparr> supplier := ''Acme'', paymentMethod := ''Efectivo'',
              items := [\<lparr> productId = ''1700000000000'', name = ''Harina'',
                         quantity = int_double 3, price = int_double 1500,
                         subtotal = int_double 4500 \<rparr>],
              total := int_double 4500 \<rparr> \<rparr>"





text \<open>
  The words of the specification about order numbers: a decimal digit, the number a
  digit string denotes (least significant digit first in \<open>decimal_rev\<close>), and the
  format ORD-### of an order number.
\<close>

definition isDigit :: "char \<Rightarrow> bool" where
  "isDigit c = (48 \<le> (of_char c :: nat) \<and> (of_char c :: nat) \<le> 57)"

fun decimal_rev :: "string \<Rightarrow> nat" where
  "decimal_rev [] = 0"
| "decimal_rev (c # cs) = (of_char c - 48) + 10 * decimal_rev cs"

definition decimal :: "string \<Rightarrow> nat" where
  "decimal ds = decimal_rev (rev ds)"

definition ord_format :: "string \<Rightarrow> bool" where
  "ord_format s = (take 4 s = ''ORD-'' \<and> length s = 7 \<and> list_all isDigit (drop 4 s))"

text \<open>
  A text has a parsable integer at its start when, after white space and one optional
  sign, it begins with a decimal digit, or with 0x or 0X and then a hexadecimal digit.
  The suffix of an order number is the text between its first and second hyphen.
\<close>

definition isHexDigit :: "char \<Rightarrow> bool" where
  "isHexDigit c =
     (isDigit c \<or> (97 \<le> (of_char c :: nat) \<and> (of_char c :: nat) \<le> 102)
        \<or> (65 \<le> (of_char c :: nat) \<and> (of_char c :: nat) \<le> 70))"

definition starts_with_integer :: "string \<Rightarrow> bool" where
  "starts_with_integer t =
     (let u = trimStart t;
          v = (case u of [] \<Rightarrow> [] | c # r \<Rightarrow> if c = CHR ''+'' \<or> c = CHR ''-'' then r else u)
      in if take 2 v = ''0x'' \<or> take 2 v = ''0X''
         then (case drop 2 v of [] \<Rightarrow> False | h # _ \<Rightarrow> isHexDigit h)
         else (case v of [] \<Rightarrow> False | d # _ \<Rightarrow> isDigit d))"

definition suffix_after_dash :: "string \<Rightarrow> string option" where
  "suffix_after_dash s =
     (if CHR ''-'' \<in> set s
      then Some (takeWhile (\<lambda>c. c \<noteq> CHR ''-'') (tl (dropWhile (\<lambda>c. c \<noteq> CHR ''-'') s)))
      else None)"

definition lacks_numeric_suffix :: "string \<Rightarrow> bool" where
  "lacks_numeric_suffix s =
     (case suffix_after_dash s of None \<Rightarrow> True | Some t \<Rightarrow> \<not> starts_with_integer t)"

text \<open>
  The suppliers and the search string of the example in the specification, and the same
  suppliers with search strings in other letter cases.
\<close>

definition example_suppliers :: "Supplier list" where
  "example_suppliers =
     [\<lparr> supplier_id = ''s1'', supplier_name = ''Acme Foods'', insumo = ''Abarrotes'',
        rut = None, email = None, additionalInfo = None \<rparr>,
      \<lparr> supplier_id = ''s2'', supplier_name = ''Ace Hardware'', insumo = ''Ferreteria'',
        rut = None, email = None, additionalInfo = None \<rparr>,
      \<lparr> supplier_id = ''s3'', supplier_name = ''Best Co'', insumo = ''Envases'',
        rut = None, email = None, additionalInfo = None \<rparr>]"

definition example_search :: State where
  "example_search =
     (initialState None ''t1'' ''t2'') \<lparr> suppliers := example_suppliers, supplierSearch := ''Ace'' \<rparr>"

definition example_search_upper :: State where
  "example_search_upper = example_search \<lparr> supplierSearch := ''ACE H'' \<rparr>"

definition example_search_foods :: State where
  "example_search_foods = example_search \<lparr> supplierSearch := ''foods'' \<rparr>"

text \<open>A state with two products of two suppliers loaded and a product staged.\<close>

definition example_catalog :: State where
  "example_catalog =
     (initialState None ''t1'' ''t2'')
       \<lparr> products := [example_product,
                      example_product \<lparr> product_id := ''p2'', product_name := ''Clavos'',
                                        product_supplier := ''Ace Hardware'' \<rparr>],
         newItem := \<lparr> new_name = ''Clavos'', new_quantity = int_double 2,
                      new_price = int_double 300 \<rparr>,
         productSearch := ''Clavos'' \<rparr>"

text \<open>The address that a fresh draft is opened with, in UTF-8.\<close>

definition default_address :: string where
  "default_address = ''Av. Camilo Henr'' @ [CHR 0xC3, CHR 0xAD] @ ''quez 3692''"

section \<open>Exact arithmetic on safe integers\<close>

lemma bits_bound: "a < 2 ^ k \<Longrightarrow> bits a \<le> k"
proof (induction k arbitrary: a)
  case 0
  then show ?case by (simp add: bits.simps [of a])
next
  case (Suc k)
  show ?case
  proof (cases "a \<le> 0")
    case True
    then show ?thesis by (simp add: bits.simps [of a])
  next
    case False
    have "a div 2 < 2 ^ k" using Suc.prems by simp
    from Suc.IH [OF this] False show ?thesis by (simp add: bits.simps [of a])
  qed
qed

lemma round_double_exact:
  assumes "\<bar>n\<bar> < 2 ^ 53"
  shows "round_double n 0 = Fin n 0"
proof -
  have "bits \<bar>n\<bar> \<le> 53" using assms by (rule bits_bound)
  then have k: "\<not> 0 < max (int (bits \<bar>n\<bar>) - 53) (- 1074 - 0)"
    and b: "\<not> 1024 < int (bits \<bar>n\<bar>) + 0"
    by simp_all
  show ?thesis
    unfolding round_double_def Let_def
    by (simp only: k b if_False) auto
qed

lemma dadd_int:
  "\<bar>a + b\<bar> < 2 ^ 53 \<Longrightarrow> dadd (int_double a) (int_double b) = int_double (a + b)"
  by (simp add: int_double_def round_double_exact)

lemma dsub_int:
  "\<bar>a - b\<bar> < 2 ^ 53 \<Longrightarrow> dsub (int_double a) (int_double b) = int_double (a - b)"
  by (simp add: int_double_def dsub_def round_double_exact)

lemma dmul_int:
  "\<bar>a * b\<bar> < 2 ^ 53 \<Longrightarrow> dmul (int_double a) (int_double b) = int_double (a * b)"
  by (simp add: int_double_def round_double_exact)

lemma or_zero_int: "or_zero (int_double t) = int_double t"
  by (simp add: or_zero_def int_double_def)

lemma safe_int_ival: "safe_int d \<Longrightarrow> d = int_double (ival d) \<and> \<bar>ival d\<bar> < 2 ^ 53"
  by (cases d) (simp_all add: int_double_def)

lemma abs_sum_nonneg: "0 \<le> abs_sum its"
  unfolding abs_sum_def by (induction its) auto

lemma abs_sum_bound: "\<bar>sum_list (map (\<lambda>i. ival (subtotal i)) its)\<bar> \<le> abs_sum its"
  unfolding abs_sum_def by (induction its) auto

lemma dsum_exact_from:
  assumes "list_all (\<lambda>i. safe_int (subtotal i)) its" "\<bar>a\<bar> + abs_sum its < 2 ^ 53"
  shows "foldl dadd (int_double a) (map subtotal its)
           = int_double (a + sum_list (map (\<lambda>i. ival (subtotal i)) its))"
  using assms
proof (induction its arbitrary: a)
  case Nil
  then show ?case by simp
next
  case (Cons i its)
  have s: "subtotal i = int_double (ival (subtotal i))"
    using Cons.prems(1) safe_int_ival by simp
  have b: "\<bar>a + ival (subtotal i)\<bar> + abs_sum its < 2 ^ 53"
    using Cons.prems(2) by (simp add: abs_sum_def)
  have "0 \<le> abs_sum its" by (rule abs_sum_nonneg)
  then have "\<bar>a + ival (subtotal i)\<bar> < 2 ^ 53" using b by simp
  then have "dadd (int_double a) (subtotal i) = int_double (a + ival (subtotal i))"
    using s dadd_int by metis
  then show ?case
    using Cons.IH [of "a + ival (subtotal i)"] Cons.prems(1) b by (simp add: add.assoc)
qed

lemma dsum_exact:
  assumes "exact_items its"
  shows "dsum (map subtotal its) = int_double (sum_list (map (\<lambda>i. ival (subtotal i)) its))"
  using dsum_exact_from [of its 0] assms by (simp add: exact_items_def dsum_def)

section \<open>Properties of the draft: total, add, remove\<close>

lemma filter_enumerate_below:
  "m < n \<Longrightarrow> map snd (filter (\<lambda>(j, _). j \<noteq> m) (enumerate n xs)) = xs"
  by (induction xs arbitrary: n) auto

lemma filter_enumerate_skip:
  "map snd (filter (\<lambda>(j, _). j \<noteq> n + k) (enumerate n xs)) = take k xs @ drop (Suc k) xs"
proof (induction xs arbitrary: n k)
  case Nil
  then show ?case by simp
next
  case (Cons x xs)
  show ?case
  proof (cases k)
    case 0
    then show ?thesis by (simp add: filter_enumerate_below)
  next
    case (Suc k')
    then show ?thesis using Cons.IH [of "Suc n" k'] by simp
  qed
qed

lemma filter_index_nonneg:
  assumes "0 \<le> idx"
  shows "filter_index idx xs = take (nat idx) xs @ drop (Suc (nat idx)) xs"
proof -
  have "(\<lambda>(i::nat, _::'a). int i \<noteq> idx) = (\<lambda>(j, _). j \<noteq> 0 + nat idx)"
    using assms by (auto simp: fun_eq_iff)
  then show ?thesis
    unfolding filter_index_def by (simp only: filter_enumerate_skip)
qed

lemma sum_list_remove_nth:
  fixes f :: "'a \<Rightarrow> int"
  assumes "k < length xs"
  shows "sum_list (map f (take k xs)) + sum_list (map f (drop (Suc k) xs))
           = sum_list (map f xs) - f (xs ! k)"
proof -
  have "sum_list (map f xs) = sum_list (map f (take k xs @ xs ! k # drop (Suc k) xs))"
    using assms by (simp only: id_take_nth_drop [symmetric])
  then show ?thesis by simp
qed

lemma formData_rerender [simp]: "formData (rerender lc old b new) = formData new"
  by (simp add: rerender_def supplierEffect_def)

lemma removeItem_Inr:
  assumes "removeItem idx s = Inr s'"
  shows "0 \<le> idx \<and> nat idx < length (items (formData s))
     \<and> s' = s \<lparr> formData := (formData s)
                  \<lparr> items := take (nat idx) (items (formData s)) @ drop (Suc (nat idx)) (items (formData s)),
                    total := dsub (or_zero (total (formData s)))
                               (subtotal (items (formData s) ! nat idx)) \<rparr> \<rparr>"
  using assms
  by (auto simp: removeItem_def index_def Let_def filter_index_nonneg split: if_splits)

lemma total_ok_addItem:
  assumes "total_ok s" "exact_event s (AddItem now)"
  shows "total_ok (addItem now s)"
proof (cases "addItemDisabled s")
  case True
  then show ?thesis using assms(1) by (simp add: addItem_def addItemDisabled_def)
next
  case False
  define q where "q = ival (new_quantity (newItem s))"
  define p where "p = ival (new_price (newItem s))"
  define t where "t = sum_list (map (\<lambda>i. ival (subtotal i)) (items (formData s)))"
  have e: "new_quantity (newItem s) = int_double q" "new_price (newItem s) = int_double p"
    and b: "abs_sum (items (formData s)) + \<bar>q * p\<bar> < 2 ^ 53"
    using assms(2) False safe_int_ival by (auto simp: q_def p_def)
  have tot: "total (formData s) = int_double t" and ex: "exact_items (items (formData s))"
    using assms(1) by (simp_all add: total_ok_def t_def)
  have a0: "0 \<le> abs_sum (items (formData s))" by (rule abs_sum_nonneg)
  have at: "\<bar>t\<bar> \<le> abs_sum (items (formData s))"
    unfolding t_def by (rule abs_sum_bound)
  have m: "dmul (int_double q) (int_double p) = int_double (q * p)"
    using b a0 by (intro dmul_int) simp
  have d: "dadd (int_double t) (int_double (q * p)) = int_double (t + q * p)"
    using b at by (intro dadd_int) (simp add: abs_if split: if_splits)
  have sq: "safe_int (int_double (q * p))" "ival (int_double (q * p)) = q * p"
    using b a0 by (simp_all add: int_double_def)
  have tot': "total (formData (addItem now s)) = int_double (t + q * p)"
    using False by (simp add: addItem_def addItemDisabled_def Let_def e tot or_zero_int m d)
  have sum': "sum_list (map (\<lambda>i. ival (subtotal i)) (items (formData (addItem now s)))) = t + q * p"
    and abs': "abs_sum (items (formData (addItem now s))) = abs_sum (items (formData s)) + \<bar>q * p\<bar>"
    and all': "list_all (\<lambda>i. safe_int (subtotal i)) (items (formData (addItem now s)))
                 = list_all (\<lambda>i. safe_int (subtotal i)) (items (formData s))"
    using False sq
    by (simp_all add: addItem_def addItemDisabled_def Let_def e m t_def abs_sum_def)
  show ?thesis
    using ex b by (simp add: total_ok_def exact_items_def tot' sum' abs' all')
qed

lemma total_ok_removeItem:
  assumes "total_ok s" "removeItem idx s = Inr s'"
  shows "total_ok s'"
proof -
  define its where "its = items (formData s)"
  define k where "k = nat idx"
  define t where "t = sum_list (map (\<lambda>i. ival (subtotal i)) its)"
  from removeItem_Inr [OF assms(2)]
  have k: "k < length its"
    and s': "s' = s \<lparr> formData := (formData s)
                  \<lparr> items := take k its @ drop (Suc k) its,
                    total := dsub (or_zero (total (formData s))) (subtotal (its ! k)) \<rparr> \<rparr>"
    by (simp_all add: its_def k_def)
  have tot: "total (formData s) = int_double t"
    and all: "list_all (\<lambda>i. safe_int (subtotal i)) its" and b: "abs_sum its < 2 ^ 53"
    using assms(1) by (simp_all add: total_ok_def exact_items_def its_def t_def)
  have c: "subtotal (its ! k) = int_double (ival (subtotal (its ! k)))"
    using all k safe_int_ival by (simp add: list_all_length)
  define rest where "rest = take k its @ drop (Suc k) its"
  have ar: "abs_sum rest = abs_sum its - \<bar>ival (subtotal (its ! k))\<bar>"
    using sum_list_remove_nth [OF k, of "\<lambda>i. \<bar>ival (subtotal i)\<bar>"]
    by (simp add: abs_sum_def rest_def)
  have sr: "sum_list (map (\<lambda>i. ival (subtotal i)) rest) = t - ival (subtotal (its ! k))"
    using sum_list_remove_nth [OF k, of "\<lambda>i. ival (subtotal i)"]
    by (simp add: rest_def t_def)
  have br: "abs_sum rest < 2 ^ 53" using ar b by simp
  have "\<bar>t - ival (subtotal (its ! k))\<bar> \<le> abs_sum rest"
    using abs_sum_bound [of rest] sr by simp
  then have "\<bar>t - ival (subtotal (its ! k))\<bar> < 2 ^ 53" using br by simp
  then have d: "dsub (int_double t) (subtotal (its ! k)) = int_double (t - ival (subtotal (its ! k)))"
    using c dsub_int by metis
  have allr: "list_all (\<lambda>i. safe_int (subtotal i)) rest"
    using all unfolding rest_def list_all_iff by (auto dest: in_set_takeD in_set_dropD)
  show ?thesis
    using allr br sr d
    by (simp add: total_ok_def exact_items_def s' tot or_zero_int rest_def)
qed

lemma total_ok_handle:
  assumes "total_ok s" "exact_event s e" "handle e s = Inr s'"
  shows "total_ok s'"
proof (cases e)
  case (AddItem now)
  then show ?thesis using assms total_ok_addItem by auto
next
  case (RemoveItem idx)
  then show ?thesis using assms total_ok_removeItem by auto
next
  case (EstimatedDeliveryChange v)
  then show ?thesis using assms by (cases v) (auto simp: total_ok_def)
qed (use assms in \<open>auto simp: total_ok_def supplierChange_def handleSupplierSelect_def
       productChange_def handleProductSelect_def split: if_splits\<close>)

lemma step_Inr:
  assumes "step lc s e = Inr s'"
  obtains t where "handle e s = Inr t" and "s' = rerender lc s (isProductsLoaded e) t"
  using assms by (auto simp: step_def split: sum.splits)

lemma total_ok_step:
  assumes "total_ok s" "exact_event s e" "step lc s e = Inr s'"
  shows "total_ok s'"
proof -
  from assms(3) obtain t where t: "handle e s = Inr t"
    and s': "s' = rerender lc s (isProductsLoaded e) t"
    by (rule step_Inr)
  from total_ok_handle [OF assms(1,2) t] show ?thesis
    by (simp add: s' total_ok_def)
qed

lemma total_ok_run:
  "total_ok s \<Longrightarrow> exact_run lc s evs \<Longrightarrow> run lc s evs = Inr s' \<Longrightarrow> total_ok s'"
proof (induction evs arbitrary: s)
  case Nil
  then show ?case by simp
next
  case (Cons e evs)
  from Cons.prems(3) obtain t where t: "step lc s e = Inr t" and r: "run lc t evs = Inr s'"
    by (auto split: sum.splits)
  have "exact_event s e" "exact_run lc t evs"
    using Cons.prems(2) t by simp_all
  from Cons.IH [OF total_ok_step [OF Cons.prems(1) this(1) t] this(2) r] show ?case .
qed

lemma total_ok_initialState: "total_ok (initialState l n1 n2)"
  by (simp add: total_ok_def exact_items_def abs_sum_def initialState_def initialFormData_def)

text \<open>
  C1. Take any sequence of events on a freshly opened form (adding and removing items,
  and every other handler of the component) and any prefix of it that runs without an
  error, which is the case when every removal is given an index into the item list of
  the moment. If every item of that prefix is added with a quantity and a price that
  are safe integers, at a moment when the absolute subtotals of the draft and of the
  new item sum to less than \<open>2 ^ 53\<close>, then after the prefix the total of the draft is
  the sum of the subtotals of its items: the exact sum of these integers, which is also
  the sum that double addition gives. The case mapping is any function.
\<close>

theorem total_is_sum_of_subtotals:
  assumes "run toLowerCase (initialState lastOrderNumber now1 now2) (take k evs) = Inr s"
    and "exact_run toLowerCase (initialState lastOrderNumber now1 now2) (take k evs)"
  shows "total (formData s) = int_double (sum_list (map (\<lambda>i. ival (subtotal i)) (items (formData s))))
    \<and> total (formData s) = dsum (map subtotal (items (formData s)))
    \<and> list_all (\<lambda>i. safe_int (subtotal i)) (items (formData s))"
proof -
  have "total_ok s"
    using total_ok_run [OF total_ok_initialState assms(2,1)] .
  then show ?thesis
    using dsum_exact [of "items (formData s)"] by (simp add: total_ok_def exact_items_def)
qed

theorem total_is_sum_of_subtotals_witness:
  "exact_run asciiLowerCase (initialState None ''t1'' ''t2'') (take 10 example_events)
   \<and> (case run asciiLowerCase (initialState None ''t1'' ''t2'') (take 10 example_events) of
      Inl err \<Rightarrow> False
    | Inr s \<Rightarrow> map quantity (items (formData s)) = [int_double 2]
              \<and> total (formData s) = int_double 3000
              \<and> dsum (map subtotal (items (formData s))) = int_double 3000)"
proof -
  have x: "exact_run asciiLowerCase (initialState None ''t1'' ''t2'') (take 10 example_events)"
    by code_simp
  have t: "(case run asciiLowerCase (initialState None ''t1'' ''t2'') (take 10 example_events) of
      Inl err \<Rightarrow> False
    | Inr s \<Rightarrow> map quantity (items (formData s)) = [int_double 2]
              \<and> total (formData s) = int_double 3000)"
    by code_simp
  then obtain s
    where r: "run asciiLowerCase (initialState None ''t1'' ''t2'') (take 10 example_events) = Inr s"
    by (auto split: sum.splits)
  from total_is_sum_of_subtotals [OF r x] t r x show ?thesis by auto
qed

text \<open>
  Outside that range the total leaves the sum. Add an item of quantity \<open>2 ^ 53\<close> at
  price 1, then an item of quantity 1 at price 1: the double sum \<open>2 ^ 53 + 1\<close> is rounded
  to \<open>2 ^ 53\<close>. Remove the first item: the total is 0, the one item left has subtotal 1.
  With the quantities 0.1, 0.2 and 0.3 at price 1 and the first item removed, the total
  is \<open>4503599627370497 / 2 ^ 53\<close>, just above 0.5, and the subtotals left (0.2 and 0.3)
  sum to \<open>4503599627370496 / 2 ^ 53\<close>, which is 0.5.
\<close>

theorem total_is_sum_of_subtotals_counterexample:
  "(case run asciiLowerCase (initialState None ''t1'' ''t2'') drift_events of
      Inl err \<Rightarrow> False
    | Inr s \<Rightarrow> map subtotal (items (formData s)) = [int_double 1]
              \<and> dsum (map subtotal (items (formData s))) = int_double 1
              \<and> total (formData s) = int_double 0
              \<and> total (formData s) \<noteq> dsum (map subtotal (items (formData s))))
   \<and> (case run asciiLowerCase (initialState None ''t1'' ''t2'') fraction_events of
      Inl err \<Rightarrow> False
    | Inr s \<Rightarrow> map subtotal (items (formData s))
                = [Fin 3602879701896397 (- 54), Fin 5404319552844595 (- 54)]
              \<and> dsum (map subtotal (items (formData s))) = Fin 4503599627370496 (- 53)
              \<and> total (formData s) = Fin 4503599627370497 (- 53)
              \<and> total (formData s) \<noteq> dsum (map subtotal (items (formData s))))"
  by code_simp






text \<open>
  C9. For an index outside the item list (negative, or at least its length) \<open>removeItem\<close>
  is not a silent no-op: the element read is undefined, reading its subtotal throws, and
  the call ends in the error instead of returning the draft unchanged.
\<close>

theorem removeItem_out_of_range:
  assumes "idx < 0 \<or> int (length (items (formData s))) \<le> idx"
  shows "index (items (formData s)) idx = None
    \<and> removeItem idx s = Inl TypeError \<and> removeItem idx s \<noteq> Inr s"
  using assms by (auto simp: removeItem_def index_def Let_def)

theorem removeItem_out_of_range_witness:
  "((-1::int) < 0 \<or> int (length (items (formData example_complete))) \<le> -1)
   \<and> removeItem (-1) example_complete = Inl TypeError
   \<and> ((1::int) < 0 \<or> int (length (items (formData example_complete))) \<le> 1)
   \<and> removeItem 1 example_complete = Inl TypeError"
  using removeItem_out_of_range [of "-1" example_complete]
    removeItem_out_of_range [of 1 example_complete]
  by (simp add: example_complete_def)

section \<open>Submission\<close>

text \<open>
  C3. \<open>handleSubmit\<close> calls neither the save callback nor the close callback exactly when
  the supplier, the delivery address or the payment method is empty or there is no
  item; otherwise it passes the draft to the save callback and then calls the close
  callback.
\<close>

theorem handleSubmit_validation:
  "(((\<forall>d. OnSave d \<notin> set (handleSubmit s)) \<and> OnClose \<notin> set (handleSubmit s))
      = (supplier (formData s) = [] \<or> deliveryAddress (formData s) = []
          \<or> paymentMethod (formData s) = [] \<or> items (formData s) = []))
   \<and> (supplier (formData s) \<noteq> [] \<and> deliveryAddress (formData s) \<noteq> []
        \<and> paymentMethod (formData s) \<noteq> [] \<and> items (formData s) \<noteq> []
       \<longrightarrow> handleSubmit s = [PreventDefault, OnSave (formData s), OnClose])"
  by (auto simp: handleSubmit_def)

theorem handleSubmit_validation_witness:
  "supplier (formData example_complete) \<noteq> [] \<and> deliveryAddress (formData example_complete) \<noteq> []
   \<and> paymentMethod (formData example_complete) \<noteq> [] \<and> items (formData example_complete) \<noteq> []
   \<and> handleSubmit example_complete = [PreventDefault, OnSave (formData example_complete), OnClose]
   \<and> OnClose \<notin> set (handleSubmit (initialState None ''t1'' ''t2''))"
  using handleSubmit_validation [of example_complete]
    handleSubmit_validation [of "initialState None ''t1'' ''t2''"]
  by (simp add: example_complete_def initialState_def initialFormData_def)

section \<open>Order numbers\<close>

lemma of_char_digit_char: "d < 10 \<Longrightarrow> (of_char (digit_char d) :: nat) = 48 + d"
  by (simp add: digit_char_def)

lemma isDigit_digit_char: "d < 10 \<Longrightarrow> isDigit (digit_char d)"
  by (simp add: isDigit_def of_char_digit_char)

lemma showNat_digits: "list_all isDigit (showNat n)"
proof (induction n rule: showNat.induct)
  case (1 n)
  show ?case
  proof (cases "n < 10")
    case True
    then show ?thesis by (simp add: showNat.simps [of n] isDigit_digit_char)
  next
    case False
    then show ?thesis using 1 by (simp add: showNat.simps [of n] isDigit_digit_char)
  qed
qed

lemma decimal_snoc: "decimal (xs @ [c]) = 10 * decimal xs + (of_char c - 48)"
  by (simp add: decimal_def)

lemma decimal_showNat: "decimal (showNat n) = n"
proof (induction n rule: showNat.induct)
  case (1 n)
  show ?case
  proof (cases "n < 10")
    case True
    then show ?thesis by (simp add: showNat.simps [of n] decimal_def of_char_digit_char)
  next
    case False
    then show ?thesis using 1
      by (simp add: showNat.simps [of n] decimal_snoc of_char_digit_char)
  qed
qed

lemma decimal_rev_zeros: "decimal_rev (ys @ replicate k (CHR ''0'')) = decimal_rev ys"
proof (induction ys)
  case Nil
  show ?case by (induction k) simp_all
next
  case (Cons y ys)
  then show ?case by simp
qed

lemma decimal_leading_zeros: "decimal (replicate k (CHR ''0'') @ xs) = decimal xs"
  by (simp add: decimal_def decimal_rev_zeros)

lemma showNat_nonempty: "showNat n \<noteq> []"
  by (subst showNat.simps) simp

lemma showNat_hd: "0 < n \<Longrightarrow> hd (showNat n) \<noteq> CHR ''0''"
proof (induction n rule: showNat.induct)
  case (1 n)
  show ?case
  proof (cases "n < 10")
    case True
    have "(of_char (digit_char n) :: nat) \<noteq> of_char (CHR ''0'')"
      using True 1(2) by (simp add: of_char_digit_char)
    then have "digit_char n \<noteq> CHR ''0''" by auto
    then show ?thesis using True by (simp add: showNat.simps [of n])
  next
    case False
    then have "0 < n div 10" by simp
    with 1 False show ?thesis
      by (simp add: showNat.simps [of n] showNat_nonempty)
  qed
qed

lemma digitValue_digit: "isDigit c \<Longrightarrow> digitValue 10 c = Some (of_char c - 48)"
  by (auto simp: digitValue_def isDigit_def Let_def)

lemma radixValue_snoc:
  "radixValue r (xs @ [c]) = radixValue r xs * r + the (digitValue r c)"
  by (simp add: radixValue_def)

lemma radixValue_decimal: "list_all isDigit ds \<Longrightarrow> radixValue 10 ds = decimal ds"
proof (induction ds rule: rev_induct)
  case Nil
  show ?case by (simp add: radixValue_def decimal_def)
next
  case (snoc c ds)
  then show ?case by (simp add: radixValue_snoc decimal_snoc digitValue_digit)
qed

lemma isDigit_not_special:
  assumes "isDigit c"
  shows "\<not> isWhiteSpace c" "c \<noteq> CHR ''-''" "c \<noteq> CHR ''+''" "c \<noteq> CHR ''x''" "c \<noteq> CHR ''X''"
  using assms by (auto simp: isDigit_def isWhiteSpace_def)

lemma whiteSpaceLen_digit:
  assumes "isDigit c"
  shows "whiteSpaceLen (c # cs) = 0"
proof -
  have n: "(of_char c :: nat) \<le> 57" "48 \<le> (of_char c :: nat)"
    using assms by (simp_all add: isDigit_def)
  have "c \<noteq> CHR 0xC2" "c \<noteq> CHR 0xE1" "c \<noteq> CHR 0xE2" "c \<noteq> CHR 0xE3" "c \<noteq> CHR 0xEF"
    using n by auto
  then show ?thesis
    using isDigit_not_special(1) [OF assms]
    by (cases cs; cases "tl cs") (auto simp: whiteSpaceLen_def)
qed

lemma parseInt_digits:
  assumes "ds \<noteq> []" "list_all isDigit ds"
  shows "parseInt ds = Num (int (decimal ds))"
proof -
  obtain c cs where ds: "ds = c # cs" using assms(1) by (cases ds) auto
  have c: "isDigit c" using assms(2) ds by simp
  have S: "trimStart ds = ds"
    using whiteSpaceLen_digit [OF c] ds by (subst trimStart.simps) simp
  have nohex: "take 2 ds \<noteq> ''0x''" "take 2 ds \<noteq> ''0X''"
  proof -
    show "take 2 ds \<noteq> ''0x''"
    proof
      assume "take 2 ds = ''0x''"
      then have "CHR ''x'' \<in> set (take 2 ds)" by simp
      then have "CHR ''x'' \<in> set ds" by (rule in_set_takeD)
      then have "isDigit (CHR ''x'')" using assms(2) by (simp add: list_all_iff)
      then show False by (simp add: isDigit_def)
    qed
    show "take 2 ds \<noteq> ''0X''"
    proof
      assume "take 2 ds = ''0X''"
      then have "CHR ''X'' \<in> set (take 2 ds)" by simp
      then have "CHR ''X'' \<in> set ds" by (rule in_set_takeD)
      then have "isDigit (CHR ''X'')" using assms(2) by (simp add: list_all_iff)
      then show False by (simp add: isDigit_def)
    qed
  qed
  have Z: "takeWhile (\<lambda>c. digitValue 10 c \<noteq> None) ds = ds"
    using assms(2) by (simp add: list_all_iff digitValue_digit)
  have h: "hd ds \<noteq> CHR ''-''" "hd ds \<noteq> CHR ''+''"
    using isDigit_not_special(2,3) [OF c] ds by simp_all
  show ?thesis
    unfolding parseInt_def Let_def
    by (simp only: S h nohex Z assms(1) radixValue_decimal [OF assms(2)] if_False if_True
          simp_thms mult_1)
qed

lemma split_str_no_sep: "c \<notin> set t \<Longrightarrow> split_str c t = [t]"
  by (induction t) auto


lemma padStart_digits:
  "list_all isDigit x \<Longrightarrow> list_all isDigit (padStart x n (CHR ''0''))"
  by (auto simp: padStart_def isDigit_def list_all_iff)

lemma padStart_length: "n \<le> length (padStart x n c)"
  by (simp add: padStart_def)

lemma padStart_hd:
  assumes "n < length (padStart x n c)"
  shows "padStart x n c = x"
  using assms by (simp add: padStart_def split: if_splits)

lemma generateOrderNumber_digits:
  assumes "ds \<noteq> []" "list_all isDigit ds"
  shows "generateOrderNumber (Some (''ORD-'' @ ds))
           = ''ORD-'' @ padStart (showNat (decimal ds + 1)) 3 (CHR ''0'')"
proof -
  have "CHR ''-'' \<notin> set ds"
    using assms(2) by (auto simp: list_all_iff isDigit_def)
  then have "split_str (CHR ''-'') (''ORD-'' @ ds) = [''ORD'', ds]"
    by (simp add: split_str_no_sep)
  then have "toString (index (split_str (CHR ''-'') (''ORD-'' @ ds)) 1) = ds"
    by (simp add: index_def)
  moreover have "numberToString (plus_number (parseInt ds) (Num 1)) = showNat (decimal ds + 1)"
    by (simp add: parseInt_digits [OF assms] nat_add_distrib)
  ultimately show ?thesis
    by (simp add: generateOrderNumber_def Let_def)
qed

text \<open>
  C4. With no previous order number the generator returns ORD-001. For a previous number
  ORD-### (three decimal digits) it returns ORD- followed by the digits of the suffix
  plus one, padded with zeros on the left to three digits: the digit string has at
  least three digits, no leading zero beyond the third digit from the right, and
  denotes the successor of the number the suffix denotes. ORD-007 gives ORD-008 and
  ORD-099 gives ORD-100.
\<close>

theorem generateOrderNumber_next:
  "generateOrderNumber None = ''ORD-001''
   \<and> (ord_format s \<longrightarrow>
        (\<exists>ds. generateOrderNumber (Some s) = ''ORD-'' @ ds
            \<and> ds = padStart (showNat (decimal (drop 4 s) + 1)) 3 (CHR ''0'')
            \<and> list_all isDigit ds \<and> 3 \<le> length ds
            \<and> (3 < length ds \<longrightarrow> hd ds \<noteq> CHR ''0'')
            \<and> decimal ds = decimal (drop 4 s) + 1))
   \<and> generateOrderNumber (Some ''ORD-007'') = ''ORD-008''
   \<and> generateOrderNumber (Some ''ORD-099'') = ''ORD-100''"
proof (intro conjI impI)
  show "generateOrderNumber None = ''ORD-001''"
    by (simp add: generateOrderNumber_def)
  show "generateOrderNumber (Some ''ORD-007'') = ''ORD-008''"
    by code_simp
  show "generateOrderNumber (Some ''ORD-099'') = ''ORD-100''"
    by code_simp
next
  assume f: "ord_format s"
  define ds0 where "ds0 = drop 4 s"
  define ds where "ds = padStart (showNat (decimal ds0 + 1)) 3 (CHR ''0'')"
  have s: "s = ''ORD-'' @ ds0"
    using f append_take_drop_id [of 4 s] by (simp add: ord_format_def ds0_def)
  have d: "list_all isDigit ds0" and n: "ds0 \<noteq> []"
    using f by (auto simp: ord_format_def ds0_def)
  have 1: "generateOrderNumber (Some s) = ''ORD-'' @ ds"
    unfolding s ds_def by (rule generateOrderNumber_digits [OF n d])
  have 2: "list_all isDigit ds"
    unfolding ds_def by (rule padStart_digits [OF showNat_digits])
  have 3: "3 \<le> length ds"
    unfolding ds_def by (rule padStart_length)
  have 4: "hd ds \<noteq> CHR ''0''" if "3 < length ds"
  proof -
    have "ds = showNat (decimal ds0 + 1)"
      using that unfolding ds_def by (rule padStart_hd)
    then show ?thesis using showNat_hd [of "decimal ds0 + 1"] by simp
  qed
  have 5: "decimal ds = decimal ds0 + 1"
    by (simp add: ds_def padStart_def decimal_leading_zeros decimal_showNat)
  show "\<exists>ds. generateOrderNumber (Some s) = ''ORD-'' @ ds
            \<and> ds = padStart (showNat (decimal (drop 4 s) + 1)) 3 (CHR ''0'')
            \<and> list_all isDigit ds \<and> 3 \<le> length ds
            \<and> (3 < length ds \<longrightarrow> hd ds \<noteq> CHR ''0'')
            \<and> decimal ds = decimal (drop 4 s) + 1"
    using 1 2 3 4 5 by (intro exI [of _ ds]) (simp add: ds_def ds0_def)
qed

theorem generateOrderNumber_next_witness:
  "ord_format ''ORD-041''
   \<and> generateOrderNumber (Some ''ORD-041'') = ''ORD-042''
   \<and> decimal ''042'' = decimal ''041'' + 1"
proof -
  have f: "ord_format ''ORD-041''"
    by (simp add: ord_format_def isDigit_def)
  have e: "padStart (showNat (decimal (drop 4 ''ORD-041'') + 1)) 3 (CHR ''0'') = ''042''"
    by code_simp
  from generateOrderNumber_next [of "''ORD-041''"] f e show ?thesis
    by auto
qed


lemma split_str_unfold:
  "split_str c s =
     takeWhile (\<lambda>x. x \<noteq> c) s #
     (if c \<in> set s then split_str c (tl (dropWhile (\<lambda>x. x \<noteq> c) s)) else [])"
  by (induction s) (auto split: list.splits)

lemma split_str_hd: "hd (split_str c s) = takeWhile (\<lambda>x. x \<noteq> c) s"
  by (subst split_str_unfold) simp

lemma split_str_second: "index (split_str (CHR ''-'') s) 1 = suffix_after_dash s"
proof (cases "CHR ''-'' \<in> set s")
  case True
  have "split_str (CHR ''-'') (tl (dropWhile (\<lambda>x. x \<noteq> CHR ''-'') s)) \<noteq> []"
    by (subst split_str_unfold) simp
  then obtain y ys where y: "split_str (CHR ''-'') (tl (dropWhile (\<lambda>x. x \<noteq> CHR ''-'') s)) = y # ys"
    by (auto simp: neq_Nil_conv)
  have "y = takeWhile (\<lambda>x. x \<noteq> CHR ''-'') (tl (dropWhile (\<lambda>x. x \<noteq> CHR ''-'') s))"
    using split_str_hd [of "CHR ''-''" "tl (dropWhile (\<lambda>x. x \<noteq> CHR ''-'') s)"] y by simp
  then show ?thesis
    using True y by (subst split_str_unfold) (simp add: index_def suffix_after_dash_def)
next
  case False
  then show ?thesis
    by (simp add: split_str_no_sep index_def suffix_after_dash_def)
qed

lemma digitValue_10:
  "(digitValue 10 c = None) = (\<not> isDigit c)" "(\<exists>y. digitValue 10 c = Some y) = isDigit c"
  by (auto simp: digitValue_def isDigit_def Let_def)

lemma digitValue_16:
  "(digitValue 16 c = None) = (\<not> isHexDigit c)" "(\<exists>y. digitValue 16 c = Some y) = isHexDigit c"
  by (auto simp: digitValue_def isHexDigit_def isDigit_def Let_def)

lemma takeWhile_Nil_iff: "(takeWhile P xs = []) = (case xs of [] \<Rightarrow> True | x # _ \<Rightarrow> \<not> P x)"
  by (cases xs) auto

lemma sign_strip:
  "(if S \<noteq> [] \<and> (hd S = CHR ''+'' \<or> hd S = CHR ''-'') then tl S else S)
     = (case S of [] \<Rightarrow> [] | c # r \<Rightarrow> if c = CHR ''+'' \<or> c = CHR ''-'' then r else S)"
  by (cases S) auto

lemma parseInt_NaN_iff: "(parseInt t = NaN) = (\<not> starts_with_integer t)"
  unfolding parseInt_def starts_with_integer_def Let_def sign_strip
  by (simp add: takeWhile_Nil_iff digitValue_10 digitValue_16 split: list.splits)


lemma padStart_NaN:
  assumes "padStart x 3 (CHR ''0'') = ''NaN''"
  shows "x = ''NaN''"
proof (cases "3 \<le> length x")
  case True
  then show ?thesis using assms by (simp add: padStart_def)
next
  case False
  then obtain k where "3 - length x = Suc k" by (cases "3 - length x") auto
  then show ?thesis using assms by (simp add: padStart_def)
qed

lemma numberToString_NaN: "(numberToString n = ''NaN'') = (n = NaN)"
proof (cases n)
  case (Num i)
  have "showNat m \<noteq> ''NaN''" for m
  proof
    assume "showNat m = ''NaN''"
    then have "list_all isDigit ''NaN''" using showNat_digits [of m] by simp
    then show False by (simp add: isDigit_def)
  qed
  then show ?thesis using Num by simp
next
  case NaN
  then show ?thesis by simp
qed

lemma plus_number_NaN: "(plus_number a (Num b) = NaN) = (a = NaN)"
  by (cases a) simp_all

text \<open>
  C8. The generator returns ORD-NaN exactly for the non-empty previous numbers with no
  parsable integer at the start of the suffix after the first hyphen (or with no hyphen
  at all); for those it neither fails nor falls back to ORD-001.
\<close>

theorem generateOrderNumber_NaN:
  "((generateOrderNumber (Some s) = ''ORD-NaN'') = (s \<noteq> [] \<and> lacks_numeric_suffix s))
   \<and> (s \<noteq> [] \<and> lacks_numeric_suffix s \<longrightarrow> generateOrderNumber (Some s) \<noteq> ''ORD-001'')"
proof -
  have nan: "(parseInt (toString (suffix_after_dash s)) = NaN) = lacks_numeric_suffix s"
  proof (cases "suffix_after_dash s")
    case None
    have "parseInt ''undefined'' = NaN" by code_simp
    then show ?thesis using None by (simp add: lacks_numeric_suffix_def)
  next
    case (Some t)
    then show ?thesis by (simp add: lacks_numeric_suffix_def parseInt_NaN_iff)
  qed
  have "(generateOrderNumber (Some s) = ''ORD-NaN'') = (s \<noteq> [] \<and> lacks_numeric_suffix s)"
  proof (cases "s = []")
    case True
    then show ?thesis by (simp add: generateOrderNumber_def)
  next
    case False
    have "(padStart (numberToString (plus_number (parseInt (toString (suffix_after_dash s))) (Num 1)))
             3 (CHR ''0'') = ''NaN'')
          = (parseInt (toString (suffix_after_dash s)) = NaN)"
      (is "(?p = _) = _")
    proof
      assume "?p = ''NaN''"
      from padStart_NaN [OF this] show "parseInt (toString (suffix_after_dash s)) = NaN"
        by (simp add: numberToString_NaN plus_number_NaN)
    next
      assume "parseInt (toString (suffix_after_dash s)) = NaN"
      then show "?p = ''NaN''" by (simp add: padStart_def)
    qed
    then show ?thesis
      using False nan by (simp add: generateOrderNumber_def Let_def split_str_second)
  qed
  then show ?thesis by auto
qed

theorem generateOrderNumber_NaN_witness:
  "''ORD-abc'' \<noteq> [] \<and> lacks_numeric_suffix ''ORD-abc''
   \<and> generateOrderNumber (Some ''ORD-abc'') = ''ORD-NaN''
   \<and> lacks_numeric_suffix ''ORD7''
   \<and> generateOrderNumber (Some ''ORD7'') = ''ORD-NaN''"
proof -
  have "lacks_numeric_suffix ''ORD-abc''" "lacks_numeric_suffix ''ORD7''"
    by code_simp+
  then show ?thesis
    using generateOrderNumber_NaN [of "''ORD-abc''"] generateOrderNumber_NaN [of "''ORD7''"]
    by simp
qed

text \<open>
  Not every text outside the format ORD-### ends in NaN: X-5 has a parsable suffix and
  gives ORD-006, and the empty text takes the guard of the first line and gives ORD-001.
\<close>

theorem generateOrderNumber_NaN_counterexample:
  "\<not> ord_format ''X-5'' \<and> generateOrderNumber (Some ''X-5'') = ''ORD-006''
   \<and> \<not> ord_format [] \<and> generateOrderNumber (Some []) = ''ORD-001''"
  by code_simp

section \<open>The pickers\<close>

lemma includes_str_Nil [simp]: "includes_str s []"
  by (cases s) simp_all

lemma includes_str_iff: "includes_str s t = (\<exists>ps ss. s = ps @ t @ ss)"
proof (induction s)
  case Nil
  show ?case by auto
next
  case (Cons x xs)
  have pre: "(take (length t) (x # xs) = t) = (\<exists>ss. x # xs = t @ ss)"
    by (metis append_eq_conv_conj)
  show ?case
  proof
    assume "includes_str (x # xs) t"
    then consider "take (length t) (x # xs) = t" | "includes_str xs t" by auto
    then show "\<exists>ps ss. x # xs = ps @ t @ ss"
    proof cases
      case 1
      then obtain ss where "x # xs = t @ ss" using pre by blast
      then have "x # xs = [] @ t @ ss" by simp
      then show ?thesis by blast
    next
      case 2
      then obtain ps ss where "xs = ps @ t @ ss" using Cons.IH by blast
      then have "x # xs = (x # ps) @ t @ ss" by simp
      then show ?thesis by blast
    qed
  next
    assume "\<exists>ps ss. x # xs = ps @ t @ ss"
    then obtain ps ss where e: "x # xs = ps @ t @ ss" by blast
    show "includes_str (x # xs) t"
    proof (cases ps)
      case Nil
      then have "\<exists>ss. x # xs = t @ ss" using e by auto
      then have "take (length t) (x # xs) = t" using pre by blast
      then show ?thesis by simp
    next
      case (Cons p ps')
      then have "xs = ps' @ t @ ss" using e by simp
      then show ?thesis using Cons.IH by auto
    qed
  qed
qed

lemma folds_ascii_asciiLowerCase: "folds_ascii asciiLowerCase"
  by (simp add: folds_ascii_def)

lemma folds_ascii_Nil: "folds_ascii f \<Longrightarrow> f [] = []"
  by (simp add: folds_ascii_def asciiLowerCase_def)

lemma filteredSuppliers_ascii:
  assumes "folds_ascii f" "list_all isAscii (supplierSearch s)"
    "list_all (\<lambda>sup. list_all isAscii (supplier_name sup)) (suppliers s)"
  shows "filteredSuppliers f s = filteredSuppliers asciiLowerCase s"
  unfolding filteredSuppliers_def
proof (rule filter_cong [OF refl])
  fix sup
  assume "sup \<in> set (suppliers s)"
  then have "list_all isAscii (supplier_name sup)"
    using assms(3) by (simp add: list_all_iff)
  then show "includes_str (f (supplier_name sup)) (f (supplierSearch s))
      = includes_str (asciiLowerCase (supplier_name sup)) (asciiLowerCase (supplierSearch s))"
    using assms(1,2) by (simp add: folds_ascii_def)
qed

text \<open>
  C5. For every case mapping, the supplier picker keeps, in order, the suppliers whose
  name in lower case contains the search string in lower case. For a case mapping that
  maps ASCII text as JavaScript does, the search string Ace over Acme Foods, Ace
  Hardware and Best Co keeps Ace Hardware only (the letters a, c, e are not adjacent in
  Acme Foods), and so does ACE H, while foods keeps Acme Foods only.
\<close>

theorem filteredSuppliers_substring:
  "filteredSuppliers toLowerCase s
     = filter (\<lambda>sup. \<exists>ps ss. toLowerCase (supplier_name sup)
                              = ps @ toLowerCase (supplierSearch s) @ ss) (suppliers s)
   \<and> (folds_ascii toLowerCase \<longrightarrow>
        map supplier_name (filteredSuppliers toLowerCase example_search) = [''Ace Hardware'']
        \<and> map supplier_name (filteredSuppliers toLowerCase example_search_upper)
            = [''Ace Hardware'']
        \<and> map supplier_name (filteredSuppliers toLowerCase example_search_foods)
            = [''Acme Foods''])"
proof (intro conjI impI)
  show "filteredSuppliers toLowerCase s
     = filter (\<lambda>sup. \<exists>ps ss. toLowerCase (supplier_name sup)
                              = ps @ toLowerCase (supplierSearch s) @ ss) (suppliers s)"
    by (simp add: filteredSuppliers_def includes_str_iff)
next
  assume f: "folds_ascii toLowerCase"
  have a: "list_all isAscii (supplierSearch example_search)"
    "list_all (\<lambda>sup. list_all isAscii (supplier_name sup)) (suppliers example_search)"
    "list_all isAscii (supplierSearch example_search_upper)"
    "list_all (\<lambda>sup. list_all isAscii (supplier_name sup)) (suppliers example_search_upper)"
    "list_all isAscii (supplierSearch example_search_foods)"
    "list_all (\<lambda>sup. list_all isAscii (supplier_name sup)) (suppliers example_search_foods)"
    by code_simp+
  have v: "map supplier_name (filteredSuppliers asciiLowerCase example_search) = [''Ace Hardware'']"
    "map supplier_name (filteredSuppliers asciiLowerCase example_search_upper) = [''Ace Hardware'']"
    "map supplier_name (filteredSuppliers asciiLowerCase example_search_foods) = [''Acme Foods'']"
    by code_simp+
  show "map supplier_name (filteredSuppliers toLowerCase example_search) = [''Ace Hardware'']"
    using filteredSuppliers_ascii [OF f a(1,2)] v(1) by simp
  show "map supplier_name (filteredSuppliers toLowerCase example_search_upper) = [''Ace Hardware'']"
    using filteredSuppliers_ascii [OF f a(3,4)] v(2) by simp
  show "map supplier_name (filteredSuppliers toLowerCase example_search_foods) = [''Acme Foods'']"
    using filteredSuppliers_ascii [OF f a(5,6)] v(3) by simp
qed

theorem filteredSuppliers_substring_witness:
  "folds_ascii asciiLowerCase
   \<and> map supplier_name (filteredSuppliers asciiLowerCase example_search) = [''Ace Hardware'']
   \<and> map supplier_name (filteredSuppliers asciiLowerCase example_search_upper) = [''Ace Hardware'']
   \<and> map supplier_name (filteredSuppliers asciiLowerCase example_search_foods) = [''Acme Foods'']"
  using filteredSuppliers_substring [of asciiLowerCase example_search, THEN conjunct2]
    folds_ascii_asciiLowerCase
  by simp

text \<open>The result of the example is not the list of Acme Foods and Ace Hardware.\<close>

theorem filteredSuppliers_counterexample:
  "map supplier_name (suppliers example_search) = [''Acme Foods'', ''Ace Hardware'', ''Best Co'']
   \<and> supplierSearch example_search = ''Ace''
   \<and> map supplier_name (filteredSuppliers asciiLowerCase example_search)
       \<noteq> [''Acme Foods'', ''Ace Hardware'']"
  by code_simp

section \<open>The cascade of a change of supplier\<close>

lemma supplier_cascade:
  assumes "supplier (formData t) = v" "products t = products s" "v \<noteq> supplier (formData s)"
  shows "new_name (newItem (rerender lc s b t)) = []"
    "new_price (newItem (rerender lc s b t)) = int_double 0"
    "productSearch (rerender lc s b t) = []"
    "filteredProducts (rerender lc s b t)
       = (if v = [] then []
          else filter (\<lambda>p. lc (product_supplier p) = lc v) (products s))"
  using assms by (auto simp: rerender_def supplierEffect_def)

text \<open>
  C2. When typing in the supplier input or selecting a supplier changes the supplier of
  the draft, then after the step the staged name is empty, the staged price is 0, the
  product search string is empty, and the candidates of the product picker are exactly
  the loaded products whose supplier equals the new supplier name after both are put
  in lower case; there is no candidate when the new supplier is empty. This holds for
  every case mapping; for one that maps ASCII text as JavaScript does, the candidates
  shown under the emptied search string are all of them.
\<close>

theorem supplier_change_cascade:
  assumes "e = SupplierChange v \<or> e = SupplierSelect v"
    and "v \<noteq> supplier (formData s)"
  shows "\<exists>s'. step toLowerCase s e = Inr s'
           \<and> supplier (formData s') = v
           \<and> new_name (newItem s') = [] \<and> new_price (newItem s') = int_double 0
           \<and> productSearch s' = []
           \<and> filteredProducts s'
               = (if v = [] then []
                  else filter (\<lambda>p. toLowerCase (product_supplier p) = toLowerCase v) (products s))
           \<and> set (filteredProducts s')
               = (if v = [] then {}
                  else {p \<in> set (products s). toLowerCase (product_supplier p) = toLowerCase v})
           \<and> (folds_ascii toLowerCase
                \<longrightarrow> searchFilteredProducts toLowerCase s' = filteredProducts s')"
proof -
  obtain t where t: "handle e s = Inr t" "supplier (formData t) = v" "products t = products s"
    using assms(1) by (auto simp: supplierChange_def handleSupplierSelect_def)
  have np: "\<not> isProductsLoaded e" using assms(1) by auto
  define s' where "s' = rerender toLowerCase s False t"
  have st: "step toLowerCase s e = Inr s'"
    using t(1) np by (simp add: step_def s'_def)
  note c = supplier_cascade [OF t(2,3) assms(2), of toLowerCase False, folded s'_def]
  have sf: "searchFilteredProducts toLowerCase s' = filteredProducts s'"
    if "folds_ascii toLowerCase"
    using folds_ascii_Nil [OF that] by (simp add: searchFilteredProducts_def c(3))
  have "supplier (formData s') = v" by (simp add: s'_def t(2))
  with st c sf show ?thesis by auto
qed

theorem supplier_change_cascade_witness:
  "folds_ascii asciiLowerCase
   \<and> (case step asciiLowerCase example_catalog (SupplierSelect ''ACE HARDWARE'') of
      Inl err \<Rightarrow> False
    | Inr s' \<Rightarrow> new_name (newItem s') = [] \<and> new_price (newItem s') = int_double 0
          \<and> productSearch s' = []
          \<and> map product_supplier (searchFilteredProducts asciiLowerCase s') = [''Ace Hardware''])
   \<and> (case step asciiLowerCase example_catalog (SupplierChange ''acme'') of
      Inl err \<Rightarrow> False
    | Inr s' \<Rightarrow> new_name (newItem s') = [] \<and> new_price (newItem s') = int_double 0
          \<and> productSearch s' = []
          \<and> map product_supplier (searchFilteredProducts asciiLowerCase s') = [''ACME''])"
proof -
  have a: "''ACE HARDWARE'' \<noteq> supplier (formData example_catalog)"
    and b: "''acme'' \<noteq> supplier (formData example_catalog)"
    by (simp_all add: example_catalog_def initialState_def initialFormData_def)
  have f: "map product_supplier
             (filter (\<lambda>p. asciiLowerCase (product_supplier p) = asciiLowerCase ''ACE HARDWARE'')
                (products example_catalog)) = [''Ace Hardware'']"
    "map product_supplier
       (filter (\<lambda>p. asciiLowerCase (product_supplier p) = asciiLowerCase ''acme'')
          (products example_catalog)) = [''ACME'']"
    by code_simp+
  from supplier_change_cascade [OF _ a, of "SupplierSelect ''ACE HARDWARE''" asciiLowerCase]
    supplier_change_cascade [OF _ b, of "SupplierChange ''acme''" asciiLowerCase] f
    folds_ascii_asciiLowerCase
  show ?thesis by auto
qed

section \<open>The delivery address of a fresh draft\<close>

lemma handle_deliveryAddress:
  assumes "handle e s = Inr s'"
  shows "deliveryAddress (formData s')
           = (case e of DeliveryAddressChange v \<Rightarrow> v | _ \<Rightarrow> deliveryAddress (formData s))"
proof (cases e)
  case (RemoveItem idx)
  then show ?thesis using removeItem_Inr [of idx s s'] assms by simp
next
  case (EstimatedDeliveryChange v)
  then show ?thesis using assms by (cases v) auto
qed (use assms in \<open>auto simp: supplierChange_def handleSupplierSelect_def productChange_def
       handleProductSelect_def addItem_def Let_def split: if_splits\<close>)

lemma run_deliveryAddress:
  assumes "run lc s evs = Inr s'" "P (deliveryAddress (formData s))"
    "\<And>v. DeliveryAddressChange v \<in> set evs \<Longrightarrow> P v"
  shows "P (deliveryAddress (formData s'))"
  using assms
proof (induction evs arbitrary: s)
  case Nil
  then show ?case by simp
next
  case (Cons e evs)
  from Cons.prems(1) obtain t where t: "step lc s e = Inr t" and r: "run lc t evs = Inr s'"
    by (auto split: sum.splits)
  from t obtain u where u: "handle e s = Inr u" and tu: "t = rerender lc s (isProductsLoaded e) u"
    by (rule step_Inr)
  have "P (deliveryAddress (formData t))"
    using handle_deliveryAddress [OF u] Cons.prems(2,3) tu
    by (cases e) simp_all
  from Cons.IH [OF r this] Cons.prems(3) show ?case by simp
qed

text \<open>
  C10. A freshly opened draft has the delivery address Av. Camilo Henriquez 3692 (with
  an acute accent on the i), which is not empty. It stays that address as long as no
  event changes the address field, and it stays non-empty as long as no event sets the
  field to the empty text; then submission is accepted exactly when the supplier, the
  payment method and the item list are not empty.
\<close>

theorem initial_deliveryAddress:
  "deliveryAddress (formData (initialState l n1 n2)) = default_address
   \<and> default_address \<noteq> []
   \<and> (run toLowerCase (initialState l n1 n2) evs = Inr s
        \<and> (\<forall>v. DeliveryAddressChange v \<notin> set evs)
        \<longrightarrow> deliveryAddress (formData s) = default_address)
   \<and> (run toLowerCase (initialState l n1 n2) evs = Inr s \<and> DeliveryAddressChange [] \<notin> set evs
        \<longrightarrow> deliveryAddress (formData s) \<noteq> []
          \<and> ((handleSubmit s = [PreventDefault, OnSave (formData s), OnClose])
               = (supplier (formData s) \<noteq> [] \<and> paymentMethod (formData s) \<noteq> []
                   \<and> items (formData s) \<noteq> [])))"
proof (intro conjI impI)
  show i: "deliveryAddress (formData (initialState l n1 n2)) = default_address"
    by (simp add: initialState_def initialFormData_def default_address_def)
  show n: "default_address \<noteq> []"
    by (simp add: default_address_def)
  {
    assume a: "run toLowerCase (initialState l n1 n2) evs = Inr s
      \<and> (\<forall>v. DeliveryAddressChange v \<notin> set evs)"
    then show "deliveryAddress (formData s) = default_address"
      using run_deliveryAddress [of toLowerCase "initialState l n1 n2" evs s
          "\<lambda>a. a = default_address"] i
      by blast
  }
  {
    assume a: "run toLowerCase (initialState l n1 n2) evs = Inr s
      \<and> DeliveryAddressChange [] \<notin> set evs"
    then show d: "deliveryAddress (formData s) \<noteq> []"
      using run_deliveryAddress [of toLowerCase "initialState l n1 n2" evs s "\<lambda>a. a \<noteq> []"] i n
      by auto
    then show "(handleSubmit s = [PreventDefault, OnSave (formData s), OnClose])
               = (supplier (formData s) \<noteq> [] \<and> paymentMethod (formData s) \<noteq> []
                   \<and> items (formData s) \<noteq> [])"
      by (auto simp: handleSubmit_def)
  }
qed

theorem initial_deliveryAddress_witness:
  "(case run asciiLowerCase (initialState None ''t1'' ''t2'') (take 6 example_events) of
      Inl err \<Rightarrow> False
    | Inr s \<Rightarrow> deliveryAddress (formData s) = default_address
              \<and> handleSubmit s = [PreventDefault, OnSave (formData s), OnClose])"
proof -
  have no: "\<forall>v. DeliveryAddressChange v \<notin> set (take 6 example_events)"
    by (simp add: example_events_def)
  have t: "(case run asciiLowerCase (initialState None ''t1'' ''t2'') (take 6 example_events) of
      Inl err \<Rightarrow> False
    | Inr s \<Rightarrow> supplier (formData s) \<noteq> [] \<and> paymentMethod (formData s) \<noteq> []
              \<and> items (formData s) \<noteq> [])"
    by code_simp
  then obtain s
    where r: "run asciiLowerCase (initialState None ''t1'' ''t2'') (take 6 example_events) = Inr s"
    by (auto split: sum.splits)
  from initial_deliveryAddress [of None "''t1''" "''t2''" asciiLowerCase "take 6 example_events" s]
    no t r
  show ?thesis by simp
qed

end
